theory Spec2Isabelle
  imports Main
begin

section \<open>Data model\<close>

text \<open>
  Modelled from the spec: \<^verbatim>\<open>statuses.py\<close> is not among the sources; the spec gives the
  status as the closed set PENDING, SUBMITTED, APPROVED, DENIED.
\<close>

datatype VerifiedNameStatus = PENDING | SUBMITTED | APPROVED | DENIED

text \<open>
  Modelled from the spec: \<^verbatim>\<open>models.py\<close> is not among the sources; the fields are those of
  the spec's data model. \<open>id_pk\<close> is the row's primary key \<^verbatim>\<open>id\<close>, \<open>user\<close> the id of the
  owning user (\<^verbatim>\<open>user__id\<close>), an attempt id is \<open>None\<close> when the column is NULL.
\<close>

record VerifiedName =
  id_pk :: nat
  user :: int
  verified_name :: string
  profile_name :: string
  verification_attempt_id :: "int option"
  proctored_exam_attempt_id :: "int option"
  status :: VerifiedNameStatus
  created :: nat

datatype log_level = INFO | WARNING | ERROR

text \<open>One constructor per message of \<^verbatim>\<open>tasks.py\<close>, carrying the values it formats.\<close>

datatype log_message =
    IdvTaskStarted int int VerifiedNameStatus
  | IdvUpdatedAttemptId int int
  | IdvUpdatedStatus int int VerifiedNameStatus
  | IdvCreated int VerifiedNameStatus int
  | FullNameNotApproved int nat
  | ProctoringUpdatedStatus int int VerifiedNameStatus
  | ProctoringCreated int VerifiedNameStatus int
  | CannotCreate int int

datatype error =
    UserDoesNotExist int
  | VerifiedNameMultipleAttemptIds
  | VerifiedNameEmptyString string int
  | VerifiedNameDoesNotExist
  | VerifiedNameAttemptIdNotGiven

text \<open>
  The state the tasks act on: the ids of the rows of the user table, the rows of the
  VerifiedName table in insertion order, the next value of its auto-increment key, the
  reading of the wall clock that stamps \<open>created\<close>, and the log records emitted so far.
\<close>

record state =
  users :: "int list"
  verified_names :: "VerifiedName list"
  next_id :: nat
  now :: nat
  logged :: "(log_level \<times> log_message) list"

section \<open>Record store operations\<close>

text \<open>
  \<^verbatim>\<open>order_by('-created')\<close>: a sort on the key \<open>created\<close>, descending. The database
  leaves the order of rows with the same timestamp open; the sort here is stable, so such
  rows stay in insertion order, as SQLite returns them. The facts proved about a query's
  first row use only that its timestamp is the greatest.
\<close>

definition order_by_created_desc :: "VerifiedName list \<Rightarrow> VerifiedName list" where
  "order_by_created_desc rows = sort_key (\<lambda>r. - int (created r)) rows"

text \<open>\<^verbatim>\<open>.first()\<close>: the first row of a query, or nothing.\<close>

definition first :: "'a list \<Rightarrow> 'a option" where
  "first rows = (case rows of [] \<Rightarrow> None | r # _ \<Rightarrow> Some r)"

text \<open>\<^verbatim>\<open>queryset.update(...)\<close>: one statement changing every selected row; returns the count.\<close>

definition update_qs ::
  "(VerifiedName \<Rightarrow> bool) \<Rightarrow> (VerifiedName \<Rightarrow> VerifiedName) \<Rightarrow> VerifiedName list
    \<Rightarrow> nat \<times> VerifiedName list" where
  "update_qs sel f rows = (length (filter sel rows), map (\<lambda>r. if sel r then f r else r) rows)"

text \<open>
  \<^verbatim>\<open>obj.save()\<close>: writes every field of the object to the row with its primary key, and
  inserts the object when no row has that key.
\<close>

definition save :: "VerifiedName \<Rightarrow> VerifiedName list \<Rightarrow> VerifiedName list" where
  "save obj rows =
     (if id_pk obj \<in> id_pk ` set rows
      then map (\<lambda>r. if id_pk r = id_pk obj then obj else r) rows
      else rows @ [obj])"

text \<open>
  \<^verbatim>\<open>VerifiedName.objects.create(...)\<close>: inserts a row with a fresh key, stamped with the
  current time. The manager validates nothing.
\<close>

definition objects_create ::
  "int \<Rightarrow> string \<Rightarrow> string \<Rightarrow> int option \<Rightarrow> int option \<Rightarrow> VerifiedNameStatus
    \<Rightarrow> state \<Rightarrow> VerifiedName \<times> state" where
  "objects_create u vn pn vid pid st s =
     (let obj = \<lparr>id_pk = next_id s, user = u, verified_name = vn, profile_name = pn,
                 verification_attempt_id = vid, proctored_exam_attempt_id = pid,
                 status = st, created = now s\<rparr>
      in (obj, s\<lparr>verified_names := verified_names s @ [obj], next_id := Suc (next_id s)\<rparr>))"

definition emit :: "log_level \<Rightarrow> log_message \<Rightarrow> state \<Rightarrow> state" where
  "emit lvl msg s = s\<lparr>logged := logged s @ [(lvl, msg)]\<rparr>"

section \<open>The tasks of \<^verbatim>\<open>tasks.py\<close>\<close>

text \<open>
  A task returns the state it leaves and the exception it raised, if any.
  \<^verbatim>\<open>User.objects.get\<close> raises when no user has the id.
\<close>

definition idv_update_verified_name_task ::
  "int \<Rightarrow> int \<Rightarrow> VerifiedNameStatus \<Rightarrow> string \<Rightarrow> string \<Rightarrow> state \<Rightarrow> state \<times> error option" where
  "idv_update_verified_name_task attempt_id user_id name_affirmation_status photo_id_name full_name s0 =
     (let s = emit INFO (IdvTaskStarted user_id attempt_id name_affirmation_status) s0;
          sel = (\<lambda>r. user r = user_id \<and> verified_name r = photo_id_name);
          verified_names_qs = order_by_created_desc (filter sel (verified_names s))
      in if verified_names_qs \<noteq> [] then
           let (updated_for_attempt_id, rows1) =
                 update_qs (\<lambda>r. sel r \<and> proctored_exam_attempt_id r = None
                                  \<and> verification_attempt_id r = None)
                           (\<lambda>r. r\<lparr>verification_attempt_id := Some attempt_id\<rparr>)
                           (verified_names s);
               s1 = s\<lparr>verified_names := rows1\<rparr>;
               s2 = (if updated_for_attempt_id \<noteq> 0
                     then emit INFO (IdvUpdatedAttemptId user_id attempt_id) s1 else s1);
               verified_name_qs =
                 order_by_created_desc
                   (filter (\<lambda>r. sel r \<and> verification_attempt_id r = Some attempt_id
                                 \<and> proctored_exam_attempt_id r = None)
                           (verified_names s2));
               s3 = s2\<lparr>verified_names :=
                        fold (\<lambda>verified_name_obj. save (verified_name_obj\<lparr>status := name_affirmation_status\<rparr>))
                             verified_name_qs (verified_names s2)\<rparr>
           in (emit INFO (IdvUpdatedStatus user_id attempt_id name_affirmation_status) s3, None)
         else if user_id \<in> set (users s) then
           let (obj, s1) = objects_create user_id photo_id_name full_name (Some attempt_id) None
                             name_affirmation_status s
           in (emit ERROR (IdvCreated user_id (status obj) attempt_id) s1, None)
         else (s, Some (UserDoesNotExist user_id)))"

definition proctoring_update_verified_name_task ::
  "int \<Rightarrow> int \<Rightarrow> VerifiedNameStatus \<Rightarrow> string \<Rightarrow> string \<Rightarrow> state \<Rightarrow> state \<times> error option" where
  "proctoring_update_verified_name_task attempt_id user_id name_affirmation_status full_name profile_name' s =
     (case first (order_by_created_desc
                    (filter (\<lambda>r. user r = user_id \<and> status r = APPROVED) (verified_names s))) of
        Some approved \<Rightarrow>
          (if verified_name approved \<noteq> full_name
           then emit WARNING (FullNameNotApproved attempt_id (id_pk approved)) s else s, None)
      | None \<Rightarrow>
          (case first (order_by_created_desc
                         (filter (\<lambda>r. user r = user_id \<and> proctored_exam_attempt_id r = Some attempt_id)
                                 (verified_names s))) of
             Some obj \<Rightarrow>
               (emit INFO (ProctoringUpdatedStatus user_id attempt_id name_affirmation_status)
                  (s\<lparr>verified_names := save (obj\<lparr>status := name_affirmation_status\<rparr>) (verified_names s)\<rparr>),
                None)
           | None \<Rightarrow>
               if full_name \<noteq> [] \<and> profile_name' \<noteq> [] then
                 if user_id \<in> set (users s) then
                   let (obj, s1) = objects_create user_id full_name profile_name' None (Some attempt_id)
                                     name_affirmation_status s
                   in (emit INFO (ProctoringCreated user_id name_affirmation_status attempt_id) s1, None)
                 else (s, Some (UserDoesNotExist user_id))
               else (emit ERROR (CannotCreate user_id attempt_id) s, None)))"

section \<open>The API of \<^verbatim>\<open>api.py\<close>\<close>

text \<open>
  Modelled from the spec: \<^verbatim>\<open>api.py\<close> is not among the sources (only its tests are). The
  four functions below follow the spec's section on the reconciliation API; the caller
  passes a user object, so the user exists.
\<close>

text \<open>
  Modelled from the spec: \<^verbatim>\<open>create_verified_name\<close> fails with MultipleAttemptIds if both
  attempt ids are given, fails with EmptyString if either name is empty (the error names
  the field), and otherwise inserts a new record. The spec and the tests leave open which
  error a call with both attempt ids and an empty name gets, and which field is named when
  both names are empty; the checks below run in the order of the spec's sentence, the
  verified name before the profile name.
\<close>

definition create_verified_name ::
  "int \<Rightarrow> string \<Rightarrow> string \<Rightarrow> int option \<Rightarrow> int option \<Rightarrow> VerifiedNameStatus
    \<Rightarrow> state \<Rightarrow> state \<times> error option" where
  "create_verified_name u vn pn vid pid st s =
     (if vid \<noteq> None \<and> pid \<noteq> None then (s, Some VerifiedNameMultipleAttemptIds)
      else if vn = [] then (s, Some (VerifiedNameEmptyString ''verified_name'' u))
      else if pn = [] then (s, Some (VerifiedNameEmptyString ''profile_name'' u))
      else (snd (objects_create u vn pn vid pid st s), None))"

text \<open>
  Modelled from the spec: \<^verbatim>\<open>get_verified_name\<close> returns the most recently created record
  of the user, optionally only among the approved ones, or nothing.
\<close>

definition get_verified_name :: "int \<Rightarrow> bool \<Rightarrow> state \<Rightarrow> VerifiedName option" where
  "get_verified_name u is_verified_only s =
     first (order_by_created_desc
              (filter (\<lambda>r. user r = u \<and> (is_verified_only \<longrightarrow> status r = APPROVED))
                      (verified_names s)))"

text \<open>
  Modelled from the spec: \<^verbatim>\<open>update_verification_attempt_id\<close> finds the most recently
  created record of the user; if it has either attempt id set, it creates a new record
  copying the names and the status, with the new verification attempt id; otherwise it
  sets the verification attempt id on that record; it fails with DoesNotExist if the user
  has no record.
\<close>

definition update_verification_attempt_id :: "int \<Rightarrow> int \<Rightarrow> state \<Rightarrow> state \<times> error option" where
  "update_verification_attempt_id u attempt_id s =
     (case get_verified_name u False s of
        None \<Rightarrow> (s, Some VerifiedNameDoesNotExist)
      | Some obj \<Rightarrow>
          if verification_attempt_id obj \<noteq> None \<or> proctored_exam_attempt_id obj \<noteq> None
          then (snd (objects_create u (verified_name obj) (profile_name obj) (Some attempt_id) None
                       (status obj) s), None)
          else (s\<lparr>verified_names :=
                    save (obj\<lparr>verification_attempt_id := Some attempt_id\<rparr>) (verified_names s)\<rparr>,
                None))"

text \<open>
  Modelled from the spec: \<^verbatim>\<open>update_verified_name_status\<close> needs exactly one attempt id
  (AttemptIdNotGiven if none, MultipleAttemptIds if both), looks up the user's record with
  that attempt id (the most recent one when several have it), fails with DoesNotExist if
  there is none, and otherwise updates its status.
\<close>

definition update_verified_name_status ::
  "int \<Rightarrow> VerifiedNameStatus \<Rightarrow> int option \<Rightarrow> int option \<Rightarrow> state \<Rightarrow> state \<times> error option" where
  "update_verified_name_status u st vid pid s =
     (if vid = None \<and> pid = None then (s, Some VerifiedNameAttemptIdNotGiven)
      else if vid \<noteq> None \<and> pid \<noteq> None then (s, Some VerifiedNameMultipleAttemptIds)
      else
        case first (order_by_created_desc
                      (filter (\<lambda>r. user r = u \<and>
                                    (if vid \<noteq> None then verification_attempt_id r = vid
                                     else proctored_exam_attempt_id r = pid))
                              (verified_names s))) of
          None \<Rightarrow> (s, Some VerifiedNameDoesNotExist)
        | Some obj \<Rightarrow> (s\<lparr>verified_names := save (obj\<lparr>status := st\<rparr>) (verified_names s)\<rparr>, None))"

section \<open>Well-formed stores\<close>

text \<open>The primary key is unique among the rows.\<close>

definition pk_unique :: "VerifiedName list \<Rightarrow> bool" where
  "pk_unique rows = distinct (map id_pk rows)"

text \<open>A record is linked to at most one attempt.\<close>

definition one_attempt_id :: "VerifiedName \<Rightarrow> bool" where
  "one_attempt_id r = (verification_attempt_id r = None \<or> proctored_exam_attempt_id r = None)"

section \<open>Example stores\<close>

text \<open>
  The names and attempt ids of the repository's tests: one user, with an unlinked record
  and a record of proctoring attempt 456.
\<close>

definition unlinked_row :: VerifiedName where
  "unlinked_row = \<lparr>id_pk = 1, user = 7, verified_name = ''Jonathan Doe'', profile_name = ''Jon Doe'',
                    verification_attempt_id = None, proctored_exam_attempt_id = None,
                    status = PENDING, created = 10\<rparr>"

definition proctored_row :: VerifiedName where
  "proctored_row = \<lparr>id_pk = 2, user = 7, verified_name = ''Jonathan Doe'', profile_name = ''Jon Doe'',
                     verification_attempt_id = None, proctored_exam_attempt_id = Some 456,
                     status = SUBMITTED, created = 11\<rparr>"

definition pending_store :: state where
  "pending_store = \<lparr>users = [7], verified_names = [unlinked_row, proctored_row],
                     next_id = 3, now = 20, logged = []\<rparr>"

text \<open>A second record of proctoring attempt 456, created later, and a store holding both.\<close>

definition proctored_row_later :: VerifiedName where
  "proctored_row_later = \<lparr>id_pk = 3, user = 7, verified_name = ''Jonathan Doe'', profile_name = ''Jon Doe'',
                           verification_attempt_id = None, proctored_exam_attempt_id = Some 456,
                           status = PENDING, created = 12\<rparr>"

definition retried_store :: state where
  "retried_store = \<lparr>users = [7], verified_names = [unlinked_row, proctored_row, proctored_row_later],
                     next_id = 4, now = 20, logged = []\<rparr>"

text \<open>A user whose name was approved through IDV attempt 123.\<close>

definition approved_row :: VerifiedName where
  "approved_row = \<lparr>id_pk = 1, user = 7, verified_name = ''Jonathan Doe'', profile_name = ''Jon Doe'',
                    verification_attempt_id = Some 123, proctored_exam_attempt_id = None,
                    status = APPROVED, created = 10\<rparr>"

definition approved_store :: state where
  "approved_store = \<lparr>users = [7], verified_names = [approved_row], next_id = 2, now = 20, logged = []\<rparr>"

text \<open>A user without any record.\<close>

definition empty_store :: state where
  "empty_store = \<lparr>users = [7], verified_names = [], next_id = 1, now = 20, logged = []\<rparr>"

text \<open>Two unlinked records of the user, as in the test of update_verification_attempt_id.\<close>

definition unlinked_row_later :: VerifiedName where
  "unlinked_row_later = \<lparr>id_pk = 2, user = 7, verified_name = ''Jonathan Doe'', profile_name = ''Jon Doe'',
                          verification_attempt_id = None, proctored_exam_attempt_id = None,
                          status = PENDING, created = 11\<rparr>"

definition unlinked_store :: state where
  "unlinked_store = \<lparr>users = [7], verified_names = [unlinked_row, unlinked_row_later],
                      next_id = 3, now = 20, logged = []\<rparr>"

section \<open>Facts about the store operations\<close>

lemma set_order_by_created_desc [simp]: "set (order_by_created_desc rows) = set rows"
  by (simp add: order_by_created_desc_def)

lemma order_by_created_desc_Nil [simp]: "order_by_created_desc rows = [] \<longleftrightarrow> rows = []"
  by (metis set_order_by_created_desc set_empty)

lemma first_None [simp]: "first rows = None \<longleftrightarrow> rows = []"
  by (simp add: first_def split: list.splits)

lemma first_order_by_Some:
  assumes "first (order_by_created_desc rows) = Some r"
  shows "r \<in> set rows \<and> (\<forall>r'\<in>set rows. created r' \<le> created r)"
proof -
  let ?key = "\<lambda>r. - int (created r)"
  from assms obtain rest where eq: "sort_key ?key rows = r # rest"
    by (auto simp: first_def order_by_created_desc_def split: list.splits)
  have "sorted (map ?key (sort_key ?key rows))" by (rule sorted_sort_key)
  then have "\<forall>x\<in>set rest. ?key r \<le> ?key x"
    unfolding eq by simp
  then have le: "\<forall>x\<in>set rest. created x \<le> created r" by simp
  have "set rows = set (sort_key ?key rows)" by simp
  then have "set rows = insert r (set rest)" unfolding eq by simp
  with le show ?thesis by auto
qed

lemma first_order_by_filter_Some:
  assumes "first (order_by_created_desc (filter P rows)) = Some r"
  shows "r \<in> set rows \<and> P r \<and> (\<forall>r'\<in>set rows. P r' \<longrightarrow> created r' \<le> created r)"
  using first_order_by_Some[OF assms] by auto

lemma first_order_by_filter_ex:
  assumes "\<exists>r\<in>set rows. P r"
  shows "\<exists>r. first (order_by_created_desc (filter P rows)) = Some r"
proof (cases "first (order_by_created_desc (filter P rows))")
  case None
  then show ?thesis using assms by (simp add: filter_empty_conv)
next
  case (Some a)
  then show ?thesis by blast
qed

lemma save_existing:
  assumes "pk_unique rows" "obj0 \<in> set rows" "id_pk obj = id_pk obj0"
  shows "save obj rows = map (\<lambda>r. if r = obj0 then obj else r) rows"
proof -
  have inj: "inj_on id_pk (set rows)" using assms(1) by (simp add: pk_unique_def distinct_map)
  have "\<And>r. r \<in> set rows \<Longrightarrow> (id_pk r = id_pk obj) = (r = obj0)"
    using inj assms(2,3) by (auto dest: inj_onD)
  then have "map (\<lambda>r. if id_pk r = id_pk obj then obj else r) rows = map (\<lambda>r. if r = obj0 then obj else r) rows"
    by (intro map_cong) auto
  moreover have "id_pk obj \<in> id_pk ` set rows" using assms(2,3) by force
  ultimately show ?thesis by (simp add: save_def)
qed

lemma save_status_existing:
  assumes "pk_unique rows" "obj \<in> set rows"
  shows "save (obj\<lparr>status := st\<rparr>) rows = map (\<lambda>r. if r = obj then r\<lparr>status := st\<rparr> else r) rows"
proof -
  have "save (obj\<lparr>status := st\<rparr>) rows = map (\<lambda>r. if r = obj then obj\<lparr>status := st\<rparr> else r) rows"
    using save_existing[OF assms, of "obj\<lparr>status := st\<rparr>"] by simp
  also have "\<dots> = map (\<lambda>r. if r = obj then r\<lparr>status := st\<rparr> else r) rows"
    by (rule map_cong[OF refl]) simp
  finally show ?thesis .
qed

lemma save_preserves:
  assumes "\<forall>r\<in>set rows. Q r" "Q obj"
  shows "\<forall>r\<in>set (save obj rows). Q r"
  using assms by (auto simp: save_def)

lemma fold_save_status:
  assumes "pk_unique cur"
    and "\<forall>obj\<in>set qs. \<exists>r\<in>set cur. id_pk r = id_pk obj \<and> r\<lparr>status := st\<rparr> = obj\<lparr>status := st\<rparr>"
  shows "fold (\<lambda>obj. save (obj\<lparr>status := st\<rparr>)) qs cur
         = map (\<lambda>r. if id_pk r \<in> id_pk ` set qs then r\<lparr>status := st\<rparr> else r) cur"
  using assms
proof (induction qs arbitrary: cur)
  case Nil
  then show ?case by simp
next
  case (Cons obj qs)
  from Cons.prems(2) obtain r0 where r0: "r0 \<in> set cur" "id_pk r0 = id_pk obj"
      "r0\<lparr>status := st\<rparr> = obj\<lparr>status := st\<rparr>" by auto
  let ?cur' = "save (obj\<lparr>status := st\<rparr>) cur"
  have step: "?cur' = map (\<lambda>r. if r = r0 then obj\<lparr>status := st\<rparr> else r) cur"
    using save_existing[OF Cons.prems(1) r0(1), of "obj\<lparr>status := st\<rparr>"] r0(2) by simp
  have inj: "inj_on id_pk (set cur)" using Cons.prems(1) by (simp add: pk_unique_def distinct_map)
  have only: "\<And>x. x \<in> set cur \<Longrightarrow> id_pk x = id_pk obj \<Longrightarrow> x = r0"
    using inj r0(1,2) by (metis inj_onD)
  have pointwise: "(if x = r0 then obj\<lparr>status := st\<rparr> else x)
                   = (if id_pk x = id_pk obj then x\<lparr>status := st\<rparr> else x)"
    if "x \<in> set cur" for x
  proof (cases "x = r0")
    case True
    then show ?thesis using r0(2) r0(3)[symmetric] by simp
  next
    case False
    then have "id_pk x \<noteq> id_pk obj" using only[OF that] by blast
    with False show ?thesis by simp
  qed
  have step2: "?cur' = map (\<lambda>r. if id_pk r = id_pk obj then r\<lparr>status := st\<rparr> else r) cur"
    unfolding step by (rule map_cong[OF refl]) (rule pointwise)
  have pks: "map id_pk ?cur' = map id_pk cur"
    unfolding step2 by (induction cur) auto
  have u': "pk_unique ?cur'" using Cons.prems(1) pks by (simp add: pk_unique_def)
  have rest: "\<forall>o'\<in>set qs. \<exists>r\<in>set ?cur'. id_pk r = id_pk o' \<and> r\<lparr>status := st\<rparr> = o'\<lparr>status := st\<rparr>"
  proof
    fix o' assume "o' \<in> set qs"
    with Cons.prems(2) obtain r where r: "r \<in> set cur" "id_pk r = id_pk o'" "r\<lparr>status := st\<rparr> = o'\<lparr>status := st\<rparr>"
      by auto
    let ?r' = "if id_pk r = id_pk obj then r\<lparr>status := st\<rparr> else r"
    have "?r' \<in> set ?cur'" unfolding step2 using r(1) by auto
    moreover have "id_pk ?r' = id_pk o'" using r(2) by simp
    moreover have "?r'\<lparr>status := st\<rparr> = o'\<lparr>status := st\<rparr>" using r(3) by simp
    ultimately show "\<exists>r\<in>set ?cur'. id_pk r = id_pk o' \<and> r\<lparr>status := st\<rparr> = o'\<lparr>status := st\<rparr>"
      by blast
  qed
  have "fold (\<lambda>obj. save (obj\<lparr>status := st\<rparr>)) (obj # qs) cur
        = fold (\<lambda>obj. save (obj\<lparr>status := st\<rparr>)) qs ?cur'" by simp
  also have "\<dots> = map (\<lambda>r. if id_pk r \<in> id_pk ` set qs then r\<lparr>status := st\<rparr> else r) ?cur'"
    using Cons.IH[OF u' rest] .
  also have "\<dots> = map (\<lambda>r. if id_pk r \<in> id_pk ` set (obj # qs) then r\<lparr>status := st\<rparr> else r) cur"
    unfolding step2 map_map by (rule map_cong[OF refl]) (simp add: comp_def)
  finally show ?case .
qed

lemma pk_image_filter:
  assumes "pk_unique rows" "r \<in> set rows"
  shows "id_pk r \<in> id_pk ` set (filter P rows) \<longleftrightarrow> P r"
proof -
  have inj: "inj_on id_pk (set rows)" using assms(1) by (simp add: pk_unique_def distinct_map)
  show ?thesis
  proof
    assume "id_pk r \<in> id_pk ` set (filter P rows)"
    then obtain x where x: "x \<in> set rows" "P x" "id_pk r = id_pk x" by auto
    then have "r = x" using inj assms(2) by (metis inj_onD)
    with x show "P r" by simp
  next
    assume "P r"
    then show "id_pk r \<in> id_pk ` set (filter P rows)" using assms(2) by auto
  qed
qed

lemma save_loop_is_map:
  assumes "pk_unique rows"
  shows "fold (\<lambda>obj. save (obj\<lparr>status := st\<rparr>)) (order_by_created_desc (filter P rows)) rows
         = map (\<lambda>r. if P r then r\<lparr>status := st\<rparr> else r) rows"
proof -
  have "\<forall>obj\<in>set (order_by_created_desc (filter P rows)).
          \<exists>r\<in>set rows. id_pk r = id_pk obj \<and> r\<lparr>status := st\<rparr> = obj\<lparr>status := st\<rparr>"
    by auto
  from fold_save_status[OF assms this]
  have "fold (\<lambda>obj. save (obj\<lparr>status := st\<rparr>)) (order_by_created_desc (filter P rows)) rows
        = map (\<lambda>r. if id_pk r \<in> id_pk ` set (filter P rows) then r\<lparr>status := st\<rparr> else r) rows"
    by simp
  also have "\<dots> = map (\<lambda>r. if P r then r\<lparr>status := st\<rparr> else r) rows"
    by (rule map_cong[OF refl]) (simp add: pk_image_filter[OF assms] del: set_filter)
  finally show ?thesis .
qed

lemma get_verified_name_Some:
  assumes "get_verified_name u False s = Some obj"
  shows "obj \<in> set (verified_names s) \<and> user obj = u
         \<and> (\<forall>r\<in>set (verified_names s). user r = u \<longrightarrow> created r \<le> created obj)"
  using first_order_by_filter_Some[OF assms[unfolded get_verified_name_def]] by simp

lemma get_verified_name_None:
  "get_verified_name u False s = None \<longleftrightarrow> filter (\<lambda>r. user r = u) (verified_names s) = []"
  by (simp add: get_verified_name_def)

section \<open>The IDV task\<close>

lemma idv_update_branch:
  assumes "\<exists>r\<in>set (verified_names s). user r = user_id \<and> verified_name r = photo_id_name"
  shows "idv_update_verified_name_task attempt_id user_id st photo_id_name full_name s =
    (let sel = (\<lambda>r. user r = user_id \<and> verified_name r = photo_id_name);
         unl = (\<lambda>r. sel r \<and> proctored_exam_attempt_id r = None \<and> verification_attempt_id r = None);
         rows1 = map (\<lambda>r. if unl r then r\<lparr>verification_attempt_id := Some attempt_id\<rparr> else r) (verified_names s);
         qs = order_by_created_desc (filter (\<lambda>r. sel r \<and> verification_attempt_id r = Some attempt_id
                                 \<and> proctored_exam_attempt_id r = None) rows1)
     in (s\<lparr>verified_names := fold (\<lambda>obj. save (obj\<lparr>status := st\<rparr>)) qs rows1,
           logged := logged s @ [(INFO, IdvTaskStarted user_id attempt_id st)]
               @ (if filter unl (verified_names s) \<noteq> [] then [(INFO, IdvUpdatedAttemptId user_id attempt_id)] else [])
               @ [(INFO, IdvUpdatedStatus user_id attempt_id st)]\<rparr>, None))"
proof -
  have ne: "filter (\<lambda>r. user r = user_id \<and> verified_name r = photo_id_name) (verified_names s) \<noteq> []"
    using assms by (auto simp: filter_empty_conv)
  show ?thesis
    unfolding idv_update_verified_name_task_def Let_def
    using ne by (simp add: emit_def update_qs_def)
qed

lemma idv_rows_cases:
  assumes "pk_unique (verified_names s)"
  shows "verified_names (fst (idv_update_verified_name_task attempt_id user_id st photo_id_name full_name s))
         = map (\<lambda>r. if user r = user_id \<and> verified_name r = photo_id_name
                        \<and> verification_attempt_id r = Some attempt_id
                        \<and> proctored_exam_attempt_id r = None
                     then r\<lparr>status := st\<rparr> else r)
             (map (\<lambda>r. if user r = user_id \<and> verified_name r = photo_id_name
                           \<and> proctored_exam_attempt_id r = None \<and> verification_attempt_id r = None
                        then r\<lparr>verification_attempt_id := Some attempt_id\<rparr> else r)
                  (verified_names s))
       \<or> verified_names (fst (idv_update_verified_name_task attempt_id user_id st photo_id_name full_name s))
         = verified_names s @
           [\<lparr>id_pk = next_id s, user = user_id, verified_name = photo_id_name, profile_name = full_name,
             verification_attempt_id = Some attempt_id, proctored_exam_attempt_id = None,
             status = st, created = now s\<rparr>]
       \<or> verified_names (fst (idv_update_verified_name_task attempt_id user_id st photo_id_name full_name s))
         = verified_names s"
proof (cases "\<exists>r\<in>set (verified_names s). user r = user_id \<and> verified_name r = photo_id_name")
  case True
  let ?P = "\<lambda>r. user r = user_id \<and> verified_name r = photo_id_name
                     \<and> verification_attempt_id r = Some attempt_id
                     \<and> proctored_exam_attempt_id r = None"
  let ?rows1 = "map (\<lambda>r. if (user r = user_id \<and> verified_name r = photo_id_name)
                        \<and> proctored_exam_attempt_id r = None \<and> verification_attempt_id r = None
                     then r\<lparr>verification_attempt_id := Some attempt_id\<rparr> else r)
               (verified_names s)"
  let ?res = "idv_update_verified_name_task attempt_id user_id st photo_id_name full_name s"
  have "map id_pk ?rows1 = map id_pk (verified_names s)"
    by (simp add: comp_def)
  then have u1: "pk_unique ?rows1" using assms(1) unfolding pk_unique_def by metis
  have "verified_names (fst ?res)
        = fold (\<lambda>obj. save (obj\<lparr>status := st\<rparr>)) (order_by_created_desc (filter ?P ?rows1)) ?rows1"
    unfolding idv_update_branch[OF True] Let_def by simp
  also have "\<dots> = map (\<lambda>r. if ?P r then r\<lparr>status := st\<rparr> else r) ?rows1"
    by (rule save_loop_is_map[OF u1])
  finally show ?thesis by simp
next
  case False
  then have e: "filter (\<lambda>r. user r = user_id \<and> verified_name r = photo_id_name) (verified_names s) = []"
    by (simp add: filter_empty_conv)
  show ?thesis
    unfolding idv_update_verified_name_task_def Let_def
    using e by (simp add: emit_def objects_create_def Let_def)
qed

text \<open>
  Claim C1. When the user has a record whose verified name is the photo id name, the IDV
  task raises nothing, first sets the verification attempt id on every such record that
  has neither attempt id, then sets the status on every such record that has this
  verification attempt id and no proctored exam attempt id, and leaves the number of
  records as it was.
\<close>

theorem idv_task_updates_matching_records:
  assumes "pk_unique (verified_names s)"
    and "\<exists>r\<in>set (verified_names s). user r = user_id \<and> verified_name r = photo_id_name"
  shows "snd (idv_update_verified_name_task attempt_id user_id st photo_id_name full_name s) = None
    \<and> verified_names (fst (idv_update_verified_name_task attempt_id user_id st photo_id_name full_name s))
      = map (\<lambda>r. if user r = user_id \<and> verified_name r = photo_id_name
                     \<and> verification_attempt_id r = Some attempt_id
                     \<and> proctored_exam_attempt_id r = None
                  then r\<lparr>status := st\<rparr> else r)
          (map (\<lambda>r. if user r = user_id \<and> verified_name r = photo_id_name
                        \<and> proctored_exam_attempt_id r = None \<and> verification_attempt_id r = None
                     then r\<lparr>verification_attempt_id := Some attempt_id\<rparr> else r)
               (verified_names s))
    \<and> length (verified_names (fst (idv_update_verified_name_task attempt_id user_id st photo_id_name full_name s)))
      = length (verified_names s)"
proof -
  let ?P = "\<lambda>r. user r = user_id \<and> verified_name r = photo_id_name
                     \<and> verification_attempt_id r = Some attempt_id
                     \<and> proctored_exam_attempt_id r = None"
  let ?rows1 = "map (\<lambda>r. if (user r = user_id \<and> verified_name r = photo_id_name)
                        \<and> proctored_exam_attempt_id r = None \<and> verification_attempt_id r = None
                     then r\<lparr>verification_attempt_id := Some attempt_id\<rparr> else r)
               (verified_names s)"
  let ?res = "idv_update_verified_name_task attempt_id user_id st photo_id_name full_name s"
  have "map id_pk ?rows1 = map id_pk (verified_names s)"
    by (simp add: comp_def)
  then have u1: "pk_unique ?rows1" using assms(1) unfolding pk_unique_def by metis
  have err: "snd ?res = None"
    unfolding idv_update_branch[OF assms(2)] Let_def by simp
  have "verified_names (fst ?res)
        = fold (\<lambda>obj. save (obj\<lparr>status := st\<rparr>)) (order_by_created_desc (filter ?P ?rows1)) ?rows1"
    unfolding idv_update_branch[OF assms(2)] Let_def by simp
  also have "\<dots> = map (\<lambda>r. if ?P r then r\<lparr>status := st\<rparr> else r) ?rows1"
    by (rule save_loop_is_map[OF u1])
  finally have rows: "verified_names (fst ?res) = map (\<lambda>r. if ?P r then r\<lparr>status := st\<rparr> else r) ?rows1" .
  have len: "length (verified_names (fst ?res)) = length (verified_names s)"
    unfolding rows by simp
  from err rows len show ?thesis by simp
qed

theorem idv_task_updates_matching_records_witness:
  "pk_unique (verified_names pending_store)
   \<and> (\<exists>r\<in>set (verified_names pending_store). user r = 7 \<and> verified_name r = ''Jonathan Doe'')
   \<and> snd (idv_update_verified_name_task 123 7 APPROVED ''Jonathan Doe'' ''Jon Doe'' pending_store) = None
   \<and> verified_names (fst (idv_update_verified_name_task 123 7 APPROVED ''Jonathan Doe'' ''Jon Doe'' pending_store))
      = [unlinked_row\<lparr>verification_attempt_id := Some 123, status := APPROVED\<rparr>, proctored_row]"
proof -
  have u: "pk_unique (verified_names pending_store)"
    by (simp add: pk_unique_def pending_store_def unlinked_row_def proctored_row_def)
  have e: "\<exists>r\<in>set (verified_names pending_store). user r = 7 \<and> verified_name r = ''Jonathan Doe''"
    by (simp add: pending_store_def unlinked_row_def proctored_row_def)
  show ?thesis
    using u e idv_task_updates_matching_records[OF u e, of 123 APPROVED "''Jon Doe''"]
    by (simp add: pending_store_def unlinked_row_def proctored_row_def)
qed

text \<open>
  Claim C5. When the user exists and has no record whose verified name is the photo id
  name, the IDV task appends exactly one record, with the photo id name as verified name,
  the full name as profile name, the verification attempt id, the given status and no
  proctored exam attempt id, and logs the creation at level ERROR.
\<close>

theorem idv_task_creates_when_no_match:
  assumes "user_id \<in> set (users s)"
    and "\<forall>r\<in>set (verified_names s). \<not> (user r = user_id \<and> verified_name r = photo_id_name)"
  shows "snd (idv_update_verified_name_task attempt_id user_id st photo_id_name full_name s) = None
    \<and> verified_names (fst (idv_update_verified_name_task attempt_id user_id st photo_id_name full_name s))
        = verified_names s @
          [\<lparr>id_pk = next_id s, user = user_id, verified_name = photo_id_name, profile_name = full_name,
            verification_attempt_id = Some attempt_id, proctored_exam_attempt_id = None,
            status = st, created = now s\<rparr>]
    \<and> logged (fst (idv_update_verified_name_task attempt_id user_id st photo_id_name full_name s))
        = logged s @ [(INFO, IdvTaskStarted user_id attempt_id st), (ERROR, IdvCreated user_id st attempt_id)]"
proof -
  have e: "filter (\<lambda>r. user r = user_id \<and> verified_name r = photo_id_name) (verified_names s) = []"
    using assms(2) by (simp add: filter_empty_conv)
  show ?thesis
    unfolding idv_update_verified_name_task_def Let_def
    using e assms(1) by (simp add: emit_def objects_create_def Let_def)
qed

theorem idv_task_creates_when_no_match_witness:
  "7 \<in> set (users pending_store)
   \<and> \<not> (\<exists>r\<in>set (verified_names pending_store). user r = 7 \<and> verified_name r = ''J. Doe'')
   \<and> snd (idv_update_verified_name_task 123 7 SUBMITTED ''J. Doe'' ''Jon Doe'' pending_store) = None
   \<and> verified_names (fst (idv_update_verified_name_task 123 7 SUBMITTED ''J. Doe'' ''Jon Doe'' pending_store))
       = [unlinked_row, proctored_row,
          \<lparr>id_pk = 3, user = 7, verified_name = ''J. Doe'', profile_name = ''Jon Doe'',
            verification_attempt_id = Some 123, proctored_exam_attempt_id = None,
            status = SUBMITTED, created = 20\<rparr>]"
proof -
  have u: "7 \<in> set (users pending_store)"
    by (simp add: pending_store_def)
  have n: "\<forall>r\<in>set (verified_names pending_store). \<not> (user r = 7 \<and> verified_name r = ''J. Doe'')"
    by (simp add: pending_store_def unlinked_row_def proctored_row_def)
  show ?thesis
    using u n idv_task_creates_when_no_match[OF u n, of 123 SUBMITTED "''Jon Doe''"]
    by (simp add: pending_store_def)
qed

text \<open>
  Claim C3. The creation branch of the IDV task stores the names it is given: for an
  existing user without records and an empty photo id name, it creates a record whose
  verified name is empty (and raises nothing).
\<close>

theorem idv_task_creates_record_with_empty_name:
  "idv_update_verified_name_task 123 7 PENDING '''' ''Jon Doe'' empty_store
   = (\<lparr>users = [7],
        verified_names = [\<lparr>id_pk = 1, user = 7, verified_name = '''', profile_name = ''Jon Doe'',
                           verification_attempt_id = Some 123, proctored_exam_attempt_id = None,
                           status = PENDING, created = 20\<rparr>],
        next_id = 2, now = 20,
        logged = [(INFO, IdvTaskStarted 7 123 PENDING), (ERROR, IdvCreated 7 PENDING 123)]\<rparr>, None)"
  by (simp add: idv_update_verified_name_task_def empty_store_def emit_def objects_create_def
      order_by_created_desc_def Let_def)

section \<open>The proctoring task\<close>

lemma proctoring_update_branch:
  assumes "\<forall>r\<in>set (verified_names s). \<not> (user r = user_id \<and> status r = APPROVED)"
    and "first (order_by_created_desc
           (filter (\<lambda>r. user r = user_id \<and> proctored_exam_attempt_id r = Some attempt_id)
                   (verified_names s))) = Some obj"
  shows "proctoring_update_verified_name_task attempt_id user_id st full_name pname s
         = (s\<lparr>verified_names := save (obj\<lparr>status := st\<rparr>) (verified_names s),
               logged := logged s @ [(INFO, ProctoringUpdatedStatus user_id attempt_id st)]\<rparr>, None)"
proof -
  have n: "first (order_by_created_desc
             (filter (\<lambda>r. user r = user_id \<and> status r = APPROVED) (verified_names s))) = None"
    using assms(1) by (simp add: filter_empty_conv)
  show ?thesis
    unfolding proctoring_update_verified_name_task_def n assms(2) by (simp add: emit_def)
qed

lemma proctoring_rows_cases:
  "verified_names (fst (proctoring_update_verified_name_task attempt_id user_id st full_name pname s))
     = verified_names s
   \<or> (\<exists>obj\<in>set (verified_names s).
        verified_names (fst (proctoring_update_verified_name_task attempt_id user_id st full_name pname s))
        = map (\<lambda>r. if id_pk r = id_pk obj then obj\<lparr>status := st\<rparr> else r) (verified_names s))
   \<or> verified_names (fst (proctoring_update_verified_name_task attempt_id user_id st full_name pname s))
     = verified_names s @
       [\<lparr>id_pk = next_id s, user = user_id, verified_name = full_name, profile_name = pname,
         verification_attempt_id = None, proctored_exam_attempt_id = Some attempt_id,
         status = st, created = now s\<rparr>]"
proof (cases "first (order_by_created_desc
                    (filter (\<lambda>r. user r = user_id \<and> status r = APPROVED) (verified_names s)))")
  case (Some a)
  show ?thesis
    unfolding proctoring_update_verified_name_task_def Some by (simp add: emit_def)
next
  case None
  note n1 = None
  show ?thesis
  proof (cases "first (order_by_created_desc
                         (filter (\<lambda>r. user r = user_id \<and> proctored_exam_attempt_id r = Some attempt_id)
                                 (verified_names s)))")
    case None
    show ?thesis
      unfolding proctoring_update_verified_name_task_def n1 None
      by (simp add: emit_def objects_create_def Let_def)
  next
    case (Some obj)
    from first_order_by_filter_Some[OF Some] have mem: "obj \<in> set (verified_names s)" by simp
    then have "id_pk obj \<in> id_pk ` set (verified_names s)" by simp
    then have "save (obj\<lparr>status := st\<rparr>) (verified_names s)
               = map (\<lambda>r. if id_pk r = id_pk obj then obj\<lparr>status := st\<rparr> else r) (verified_names s)"
      by (simp add: save_def)
    then have "verified_names (fst (proctoring_update_verified_name_task attempt_id user_id st full_name pname s))
        = map (\<lambda>r. if id_pk r = id_pk obj then obj\<lparr>status := st\<rparr> else r) (verified_names s)"
      unfolding proctoring_update_verified_name_task_def n1 Some by (simp add: emit_def)
    with mem show ?thesis by blast
  qed
qed

text \<open>
  Claim C4. When the user has an approved record, the proctoring task raises nothing and
  leaves the records, the users and the key counter as they were; the only effect is a
  warning, emitted exactly when the full name differs from the verified name of the most
  recently created approved record.
\<close>

theorem proctoring_task_approved_changes_nothing:
  assumes "\<exists>r\<in>set (verified_names s). user r = user_id \<and> status r = APPROVED"
  shows "snd (proctoring_update_verified_name_task attempt_id user_id st full_name pname s) = None
    \<and> verified_names (fst (proctoring_update_verified_name_task attempt_id user_id st full_name pname s))
        = verified_names s
    \<and> users (fst (proctoring_update_verified_name_task attempt_id user_id st full_name pname s)) = users s
    \<and> next_id (fst (proctoring_update_verified_name_task attempt_id user_id st full_name pname s)) = next_id s
    \<and> (\<exists>a\<in>set (verified_names s). user a = user_id \<and> status a = APPROVED
          \<and> (\<forall>r\<in>set (verified_names s). user r = user_id \<and> status r = APPROVED \<longrightarrow> created r \<le> created a)
          \<and> logged (fst (proctoring_update_verified_name_task attempt_id user_id st full_name pname s))
              = logged s @ (if verified_name a = full_name then []
                            else [(WARNING, FullNameNotApproved attempt_id (id_pk a))]))"
proof -
  from first_order_by_filter_ex[OF assms] obtain a where
    a: "first (order_by_created_desc
          (filter (\<lambda>r. user r = user_id \<and> status r = APPROVED) (verified_names s))) = Some a"
    by blast
  note props = first_order_by_filter_Some[OF a]
  have res: "proctoring_update_verified_name_task attempt_id user_id st full_name pname s
             = (if verified_name a \<noteq> full_name
                then emit WARNING (FullNameNotApproved attempt_id (id_pk a)) s else s, None)"
    unfolding proctoring_update_verified_name_task_def a by simp
  show ?thesis
    unfolding res using props by (auto simp: emit_def)
qed

theorem proctoring_task_approved_changes_nothing_witness:
  "(\<exists>r\<in>set (verified_names approved_store). user r = 7 \<and> status r = APPROVED)
   \<and> snd (proctoring_update_verified_name_task 456 7 SUBMITTED ''Jon Q Doe'' ''Jon Doe'' approved_store) = None
   \<and> verified_names (fst (proctoring_update_verified_name_task 456 7 SUBMITTED ''Jon Q Doe'' ''Jon Doe'' approved_store))
       = [approved_row]
   \<and> logged (fst (proctoring_update_verified_name_task 456 7 SUBMITTED ''Jon Q Doe'' ''Jon Doe'' approved_store))
       = [(WARNING, FullNameNotApproved 456 1)]"
proof -
  have e: "\<exists>r\<in>set (verified_names approved_store). user r = 7 \<and> status r = APPROVED"
    by (simp add: approved_store_def approved_row_def)
  show ?thesis
    using e proctoring_task_approved_changes_nothing[OF e, of 456 SUBMITTED "''Jon Q Doe''" "''Jon Doe''"]
    by (simp add: approved_store_def approved_row_def)
qed

text \<open>
  Claim C6. When the user has no approved record and has a record of the event's
  proctored exam attempt, the proctoring task sets the status of one such record to the
  given status, changes no other record and creates none.
\<close>

theorem proctoring_task_updates_record_of_attempt:
  assumes "pk_unique (verified_names s)"
    and "\<forall>r\<in>set (verified_names s). \<not> (user r = user_id \<and> status r = APPROVED)"
    and "\<exists>r\<in>set (verified_names s). user r = user_id \<and> proctored_exam_attempt_id r = Some attempt_id"
  shows "snd (proctoring_update_verified_name_task attempt_id user_id st full_name pname s) = None
    \<and> length (verified_names (fst (proctoring_update_verified_name_task attempt_id user_id st full_name pname s)))
        = length (verified_names s)
    \<and> (\<exists>obj\<in>set (verified_names s). user obj = user_id \<and> proctored_exam_attempt_id obj = Some attempt_id
          \<and> verified_names (fst (proctoring_update_verified_name_task attempt_id user_id st full_name pname s))
              = map (\<lambda>r. if r = obj then r\<lparr>status := st\<rparr> else r) (verified_names s))"
proof -
  from first_order_by_filter_ex[OF assms(3)] obtain obj where
    obj: "first (order_by_created_desc
           (filter (\<lambda>r. user r = user_id \<and> proctored_exam_attempt_id r = Some attempt_id)
                   (verified_names s))) = Some obj"
    by blast
  note props = first_order_by_filter_Some[OF obj]
  have rows: "verified_names (fst (proctoring_update_verified_name_task attempt_id user_id st full_name pname s))
      = map (\<lambda>r. if r = obj then r\<lparr>status := st\<rparr> else r) (verified_names s)"
    unfolding proctoring_update_branch[OF assms(2) obj]
    using save_status_existing[OF assms(1), of obj st] props by simp
  have err: "snd (proctoring_update_verified_name_task attempt_id user_id st full_name pname s) = None"
    unfolding proctoring_update_branch[OF assms(2) obj] by simp
  have len: "length (verified_names (fst (proctoring_update_verified_name_task attempt_id user_id st full_name pname s)))
        = length (verified_names s)"
    unfolding rows by simp
  from err len rows props show ?thesis by blast
qed

theorem proctoring_task_updates_record_of_attempt_witness:
  "pk_unique (verified_names pending_store)
   \<and> \<not> (\<exists>r\<in>set (verified_names pending_store). user r = 7 \<and> status r = APPROVED)
   \<and> (\<exists>r\<in>set (verified_names pending_store). user r = 7 \<and> proctored_exam_attempt_id r = Some 456)
   \<and> snd (proctoring_update_verified_name_task 456 7 DENIED ''Jonathan Doe'' ''Jon Doe'' pending_store) = None
   \<and> verified_names (fst (proctoring_update_verified_name_task 456 7 DENIED ''Jonathan Doe'' ''Jon Doe'' pending_store))
       = [unlinked_row, proctored_row\<lparr>status := DENIED\<rparr>]"
proof -
  have u: "pk_unique (verified_names pending_store)"
    by (simp add: pk_unique_def pending_store_def unlinked_row_def proctored_row_def)
  have n: "\<forall>r\<in>set (verified_names pending_store). \<not> (user r = 7 \<and> status r = APPROVED)"
    by (simp add: pending_store_def unlinked_row_def proctored_row_def)
  have e: "\<exists>r\<in>set (verified_names pending_store). user r = 7 \<and> proctored_exam_attempt_id r = Some 456"
    by (simp add: pending_store_def unlinked_row_def proctored_row_def)
  show ?thesis
    using u n e proctoring_task_updates_record_of_attempt[OF u n e, of DENIED "''Jonathan Doe''" "''Jon Doe''"]
    by (simp add: pending_store_def unlinked_row_def proctored_row_def)
qed

text \<open>
  Claim C10. When the user has no approved record and several records carry the event's
  proctored exam attempt id, the proctoring task updates the status of one of them, whose
  creation time is the greatest among them, and leaves every other record as it was, in
  particular every record created earlier.
\<close>

theorem proctoring_task_updates_only_most_recent:
  assumes "pk_unique (verified_names s)"
    and "\<forall>r\<in>set (verified_names s). \<not> (user r = user_id \<and> status r = APPROVED)"
    and "1 < length (filter (\<lambda>r. user r = user_id \<and> proctored_exam_attempt_id r = Some attempt_id)
                            (verified_names s))"
  shows "\<exists>obj\<in>set (verified_names s).
           user obj = user_id \<and> proctored_exam_attempt_id obj = Some attempt_id
         \<and> (\<forall>r\<in>set (verified_names s).
               user r = user_id \<and> proctored_exam_attempt_id r = Some attempt_id \<longrightarrow> created r \<le> created obj)
         \<and> length (verified_names (fst (proctoring_update_verified_name_task attempt_id user_id st full_name pname s)))
             = length (verified_names s)
         \<and> (\<forall>i<length (verified_names s).
               verified_names (fst (proctoring_update_verified_name_task attempt_id user_id st full_name pname s)) ! i
               = (if verified_names s ! i = obj then obj\<lparr>status := st\<rparr> else verified_names s ! i))
         \<and> (\<forall>i<length (verified_names s). created (verified_names s ! i) < created obj \<longrightarrow>
               verified_names (fst (proctoring_update_verified_name_task attempt_id user_id st full_name pname s)) ! i
               = verified_names s ! i)"
proof -
  have "filter (\<lambda>r. user r = user_id \<and> proctored_exam_attempt_id r = Some attempt_id) (verified_names s) \<noteq> []"
    using assms(3) by auto
  then have ex: "\<exists>r\<in>set (verified_names s). user r = user_id \<and> proctored_exam_attempt_id r = Some attempt_id"
    by (simp add: filter_empty_conv)
  from first_order_by_filter_ex[OF ex] obtain obj where
    obj: "first (order_by_created_desc
           (filter (\<lambda>r. user r = user_id \<and> proctored_exam_attempt_id r = Some attempt_id)
                   (verified_names s))) = Some obj"
    by blast
  note props = first_order_by_filter_Some[OF obj]
  let ?rows' = "verified_names (fst (proctoring_update_verified_name_task attempt_id user_id st full_name pname s))"
  have rows: "?rows' = map (\<lambda>r. if r = obj then r\<lparr>status := st\<rparr> else r) (verified_names s)"
    unfolding proctoring_update_branch[OF assms(2) obj]
    using save_status_existing[OF assms(1), of obj st] props by simp
  have len: "length ?rows' = length (verified_names s)"
    unfolding rows by simp
  have at: "\<forall>i<length (verified_names s).
              ?rows' ! i = (if verified_names s ! i = obj then obj\<lparr>status := st\<rparr> else verified_names s ! i)"
    unfolding rows by simp
  have older: "\<forall>i<length (verified_names s). created (verified_names s ! i) < created obj \<longrightarrow>
                 ?rows' ! i = verified_names s ! i"
    using at by auto
  from props len at older show ?thesis by blast
qed

theorem proctoring_task_updates_only_most_recent_witness:
  "pk_unique (verified_names retried_store)
   \<and> \<not> (\<exists>r\<in>set (verified_names retried_store). user r = 7 \<and> status r = APPROVED)
   \<and> 1 < length (filter (\<lambda>r. user r = 7 \<and> proctored_exam_attempt_id r = Some 456)
                         (verified_names retried_store))
   \<and> verified_names (fst (proctoring_update_verified_name_task 456 7 DENIED ''Jonathan Doe'' ''Jon Doe'' retried_store)) ! 1
       = proctored_row
   \<and> verified_names (fst (proctoring_update_verified_name_task 456 7 DENIED ''Jonathan Doe'' ''Jon Doe'' retried_store)) ! 2
       = proctored_row_later\<lparr>status := DENIED\<rparr>"
proof -
  have u: "pk_unique (verified_names retried_store)"
    by (simp add: pk_unique_def retried_store_def unlinked_row_def proctored_row_def proctored_row_later_def)
  have n: "\<forall>r\<in>set (verified_names retried_store). \<not> (user r = 7 \<and> status r = APPROVED)"
    by (simp add: retried_store_def unlinked_row_def proctored_row_def proctored_row_later_def)
  have m: "1 < length (filter (\<lambda>r. user r = 7 \<and> proctored_exam_attempt_id r = Some 456)
                         (verified_names retried_store))"
    by (simp add: retried_store_def unlinked_row_def proctored_row_def proctored_row_later_def)
  let ?rows' = "verified_names (fst (proctoring_update_verified_name_task 456 7 DENIED ''Jonathan Doe'' ''Jon Doe'' retried_store))"
  from proctoring_task_updates_only_most_recent[OF u n m, of DENIED "''Jonathan Doe''" "''Jon Doe''"]
  obtain obj where obj: "obj \<in> set (verified_names retried_store)"
      "user obj = 7 \<and> proctored_exam_attempt_id obj = Some 456"
      "\<forall>r\<in>set (verified_names retried_store).
          user r = 7 \<and> proctored_exam_attempt_id r = Some 456 \<longrightarrow> created r \<le> created obj"
      "\<forall>i<length (verified_names retried_store).
          ?rows' ! i = (if verified_names retried_store ! i = obj then obj\<lparr>status := DENIED\<rparr>
                        else verified_names retried_store ! i)"
    by blast
  have is_later: "obj = proctored_row_later"
    using obj(1,2,3)
    by (auto simp: retried_store_def unlinked_row_def proctored_row_def proctored_row_later_def)
  have "?rows' ! 1 = proctored_row"
    using obj(4)[rule_format, of 1] unfolding is_later
    by (simp add: retried_store_def proctored_row_def proctored_row_later_def)
  moreover have "?rows' ! 2 = proctored_row_later\<lparr>status := DENIED\<rparr>"
    using obj(4)[rule_format, of 2] unfolding is_later
    by (simp add: retried_store_def)
  ultimately show ?thesis using u n m by blast
qed

text \<open>
  Claim C7. When the user has neither an approved record nor a record of the event's
  proctored exam attempt: with both names non-empty (and the user found), the proctoring
  task appends exactly one record with the full name as verified name, the profile name,
  the proctored exam attempt id and the given status; with an empty name it changes and
  creates no record and logs at level ERROR.
\<close>

theorem proctoring_task_creates_or_reports:
  assumes "\<forall>r\<in>set (verified_names s). \<not> (user r = user_id \<and> status r = APPROVED)"
    and "\<forall>r\<in>set (verified_names s). \<not> (user r = user_id \<and> proctored_exam_attempt_id r = Some attempt_id)"
  shows "(full_name \<noteq> [] \<and> pname \<noteq> [] \<and> user_id \<in> set (users s) \<longrightarrow>
            proctoring_update_verified_name_task attempt_id user_id st full_name pname s
            = (s\<lparr>verified_names := verified_names s @
                    [\<lparr>id_pk = next_id s, user = user_id, verified_name = full_name, profile_name = pname,
                      verification_attempt_id = None, proctored_exam_attempt_id = Some attempt_id,
                      status = st, created = now s\<rparr>],
                  next_id := Suc (next_id s),
                  logged := logged s @ [(INFO, ProctoringCreated user_id st attempt_id)]\<rparr>, None))
       \<and> (full_name = [] \<or> pname = [] \<longrightarrow>
            proctoring_update_verified_name_task attempt_id user_id st full_name pname s
            = (s\<lparr>logged := logged s @ [(ERROR, CannotCreate user_id attempt_id)]\<rparr>, None))"
proof -
  have n1: "first (order_by_created_desc
             (filter (\<lambda>r. user r = user_id \<and> status r = APPROVED) (verified_names s))) = None"
    using assms(1) by (simp add: filter_empty_conv)
  have n2: "first (order_by_created_desc
             (filter (\<lambda>r. user r = user_id \<and> proctored_exam_attempt_id r = Some attempt_id)
                     (verified_names s))) = None"
    using assms(2) by (simp add: filter_empty_conv)
  show ?thesis
    unfolding proctoring_update_verified_name_task_def n1 n2
    by (simp add: emit_def objects_create_def Let_def)
qed

theorem proctoring_task_creates_or_reports_witness:
  "\<not> (\<exists>r\<in>set (verified_names pending_store). user r = 7 \<and> status r = APPROVED)
   \<and> \<not> (\<exists>r\<in>set (verified_names pending_store). user r = 7 \<and> proctored_exam_attempt_id r = Some 999)
   \<and> ''Jonathan Doe'' \<noteq> [] \<and> ''Jon Doe'' \<noteq> [] \<and> 7 \<in> set (users pending_store)
   \<and> verified_names (fst (proctoring_update_verified_name_task 999 7 PENDING ''Jonathan Doe'' ''Jon Doe'' pending_store))
       = [unlinked_row, proctored_row,
          \<lparr>id_pk = 3, user = 7, verified_name = ''Jonathan Doe'', profile_name = ''Jon Doe'',
            verification_attempt_id = None, proctored_exam_attempt_id = Some 999,
            status = PENDING, created = 20\<rparr>]
   \<and> proctoring_update_verified_name_task 999 7 PENDING ''Jonathan Doe'' '''' pending_store
       = (pending_store\<lparr>logged := [(ERROR, CannotCreate 7 999)]\<rparr>, None)"
proof -
  have n1: "\<forall>r\<in>set (verified_names pending_store). \<not> (user r = 7 \<and> status r = APPROVED)"
    by (simp add: pending_store_def unlinked_row_def proctored_row_def)
  have n2: "\<forall>r\<in>set (verified_names pending_store). \<not> (user r = 7 \<and> proctored_exam_attempt_id r = Some 999)"
    by (simp add: pending_store_def unlinked_row_def proctored_row_def)
  show ?thesis
    using n1 n2
      proctoring_task_creates_or_reports[OF n1 n2, of "''Jonathan Doe''" "''Jon Doe''" PENDING]
      proctoring_task_creates_or_reports[OF n1 n2, of "''Jonathan Doe''" "''''" PENDING]
    by (simp add: pending_store_def)
qed

section \<open>At most one attempt id\<close>

text \<open>
  Claim C2. In a store with unique primary keys where every record has at most one
  attempt id, every record still has at most one after the IDV task, the proctoring task,
  create_verified_name, update_verification_attempt_id or update_verified_name_status;
  the IDV task changes the verification attempt id only of records that had neither
  attempt id, and every record the proctoring task adds has only the proctored exam
  attempt id.
\<close>

theorem at_most_one_attempt_id_preserved:
  assumes "pk_unique (verified_names s)"
    and "\<forall>r\<in>set (verified_names s). one_attempt_id r"
  shows "(\<forall>r\<in>set (verified_names (fst (idv_update_verified_name_task attempt_id user_id st photo_id_name full_name s))).
            one_attempt_id r)
       \<and> (\<forall>r\<in>set (verified_names (fst (proctoring_update_verified_name_task attempt_id user_id st full_name pname s))).
            one_attempt_id r)
       \<and> (\<forall>r\<in>set (verified_names (fst (create_verified_name user_id vname pname vid pid st s))).
            one_attempt_id r)
       \<and> (\<forall>r\<in>set (verified_names (fst (update_verification_attempt_id user_id attempt_id s))).
            one_attempt_id r)
       \<and> (\<forall>r\<in>set (verified_names (fst (update_verified_name_status user_id st vid pid s))).
            one_attempt_id r)
       \<and> (\<forall>i<length (verified_names s).
            verification_attempt_id
              (verified_names (fst (idv_update_verified_name_task attempt_id user_id st photo_id_name full_name s)) ! i)
              \<noteq> verification_attempt_id (verified_names s ! i)
            \<longrightarrow> verification_attempt_id (verified_names s ! i) = None
                \<and> proctored_exam_attempt_id (verified_names s ! i) = None
                \<and> verification_attempt_id
                    (verified_names (fst (idv_update_verified_name_task attempt_id user_id st photo_id_name full_name s)) ! i)
                    = Some attempt_id)
       \<and> (\<forall>r\<in>set (drop (length (verified_names s))
                        (verified_names (fst (proctoring_update_verified_name_task attempt_id user_id st full_name pname s)))).
            verification_attempt_id r = None \<and> proctored_exam_attempt_id r = Some attempt_id)"
proof -
  note inv = assms(2)
  let ?idv = "verified_names (fst (idv_update_verified_name_task attempt_id user_id st photo_id_name full_name s))"
  let ?proc = "verified_names (fst (proctoring_update_verified_name_task attempt_id user_id st full_name pname s))"
  have idv_inv: "\<forall>r\<in>set ?idv. one_attempt_id r"
  proof -
    let ?g = "\<lambda>r. if user r = user_id \<and> verified_name r = photo_id_name
                           \<and> proctored_exam_attempt_id r = None \<and> verification_attempt_id r = None
                        then r\<lparr>verification_attempt_id := Some attempt_id\<rparr> else r"
    let ?f = "\<lambda>r. if user r = user_id \<and> verified_name r = photo_id_name
                        \<and> verification_attempt_id r = Some attempt_id
                        \<and> proctored_exam_attempt_id r = None
                     then r\<lparr>status := st\<rparr> else r"
    have g: "one_attempt_id (?g r)" if "one_attempt_id r" for r
      using that by (simp add: one_attempt_id_def)
    have f: "one_attempt_id (?f r)" if "one_attempt_id r" for r
      using that by (simp add: one_attempt_id_def)
    have upd: "\<forall>r\<in>set (map ?f (map ?g (verified_names s))). one_attempt_id r"
    proof
      fix r assume "r \<in> set (map ?f (map ?g (verified_names s)))"
      then obtain r0 where "r0 \<in> set (verified_names s)" "r = ?f (?g r0)" by auto
      with inv show "one_attempt_id r" using f g by blast
    qed
    have new: "one_attempt_id \<lparr>id_pk = next_id s, user = user_id, verified_name = photo_id_name,
             profile_name = full_name, verification_attempt_id = Some attempt_id,
             proctored_exam_attempt_id = None, status = st, created = now s\<rparr>"
      by (simp add: one_attempt_id_def)
    from idv_rows_cases[OF assms(1), of attempt_id user_id st photo_id_name full_name]
    show ?thesis
    proof (elim disjE)
      assume "?idv = map ?f (map ?g (verified_names s))"
      with upd show ?thesis by simp
    next
      assume "?idv = verified_names s @
           [\<lparr>id_pk = next_id s, user = user_id, verified_name = photo_id_name, profile_name = full_name,
             verification_attempt_id = Some attempt_id, proctored_exam_attempt_id = None,
             status = st, created = now s\<rparr>]"
      with inv new show ?thesis by simp
    next
      assume "?idv = verified_names s"
      with inv show ?thesis by simp
    qed
  qed
  have idv_attach: "\<forall>i<length (verified_names s).
            verification_attempt_id (?idv ! i) \<noteq> verification_attempt_id (verified_names s ! i)
            \<longrightarrow> verification_attempt_id (verified_names s ! i) = None
                \<and> proctored_exam_attempt_id (verified_names s ! i) = None
                \<and> verification_attempt_id (?idv ! i) = Some attempt_id"
  proof -
    let ?g = "\<lambda>r. if user r = user_id \<and> verified_name r = photo_id_name
                           \<and> proctored_exam_attempt_id r = None \<and> verification_attempt_id r = None
                        then r\<lparr>verification_attempt_id := Some attempt_id\<rparr> else r"
    let ?f = "\<lambda>r. if user r = user_id \<and> verified_name r = photo_id_name
                        \<and> verification_attempt_id r = Some attempt_id
                        \<and> proctored_exam_attempt_id r = None
                     then r\<lparr>status := st\<rparr> else r"
    have f: "verification_attempt_id (?f r) = verification_attempt_id r" for r
      by simp
    have g: "verification_attempt_id (?g r) \<noteq> verification_attempt_id r \<Longrightarrow>
             verification_attempt_id r = None \<and> proctored_exam_attempt_id r = None
             \<and> verification_attempt_id (?g r) = Some attempt_id" for r
      by (cases "user r = user_id \<and> verified_name r = photo_id_name
                 \<and> proctored_exam_attempt_id r = None \<and> verification_attempt_id r = None") simp_all
    from idv_rows_cases[OF assms(1), of attempt_id user_id st photo_id_name full_name]
    show ?thesis
    proof (elim disjE)
      assume eq: "?idv = map ?f (map ?g (verified_names s))"
      show ?thesis
      proof (intro allI impI)
        fix i assume i: "i < length (verified_names s)"
          and ne: "verification_attempt_id (?idv ! i) \<noteq> verification_attempt_id (verified_names s ! i)"
        have at: "?idv ! i = ?f (?g (verified_names s ! i))"
          unfolding eq using i by simp
        have vid: "verification_attempt_id (?idv ! i) = verification_attempt_id (?g (verified_names s ! i))"
          unfolding at by (rule f)
        from ne have "verification_attempt_id (?g (verified_names s ! i))
                      \<noteq> verification_attempt_id (verified_names s ! i)"
          unfolding vid .
        from g[OF this] show "verification_attempt_id (verified_names s ! i) = None
                \<and> proctored_exam_attempt_id (verified_names s ! i) = None
                \<and> verification_attempt_id (?idv ! i) = Some attempt_id"
          unfolding vid .
      qed
    next
      assume "?idv = verified_names s @
           [\<lparr>id_pk = next_id s, user = user_id, verified_name = photo_id_name, profile_name = full_name,
             verification_attempt_id = Some attempt_id, proctored_exam_attempt_id = None,
             status = st, created = now s\<rparr>]"
      then show ?thesis by (simp add: nth_append)
    next
      assume "?idv = verified_names s"
      then show ?thesis by simp
    qed
  qed
  have proc_inv: "\<forall>r\<in>set ?proc. one_attempt_id r"
  proof -
    from proctoring_rows_cases[of attempt_id user_id st full_name pname s]
    show ?thesis
    proof (elim disjE bexE)
      assume "?proc = verified_names s"
      with inv show ?thesis by simp
    next
      fix obj assume obj: "obj \<in> set (verified_names s)"
        and eq: "?proc = map (\<lambda>r. if id_pk r = id_pk obj then obj\<lparr>status := st\<rparr> else r) (verified_names s)"
      from inv obj have "one_attempt_id (obj\<lparr>status := st\<rparr>)" by (simp add: one_attempt_id_def)
      with inv show ?thesis unfolding eq by auto
    next
      assume eq: "?proc = verified_names s @
       [\<lparr>id_pk = next_id s, user = user_id, verified_name = full_name, profile_name = pname,
         verification_attempt_id = None, proctored_exam_attempt_id = Some attempt_id,
         status = st, created = now s\<rparr>]"
      show ?thesis unfolding eq using inv by (simp add: one_attempt_id_def)
    qed
  qed
  have proc_new: "\<forall>r\<in>set (drop (length (verified_names s)) ?proc).
            verification_attempt_id r = None \<and> proctored_exam_attempt_id r = Some attempt_id"
    using proctoring_rows_cases[of attempt_id user_id st full_name pname s]
    by auto
  have create_inv: "\<forall>r\<in>set (verified_names (fst (create_verified_name user_id vname pname vid pid st s))).
            one_attempt_id r"
    using inv by (auto simp: create_verified_name_def objects_create_def Let_def one_attempt_id_def)
  have attach_inv: "\<forall>r\<in>set (verified_names (fst (update_verification_attempt_id user_id attempt_id s))).
            one_attempt_id r"
  proof (cases "get_verified_name user_id False s")
    case None
    then show ?thesis using inv by (simp add: update_verification_attempt_id_def)
  next
    case (Some obj)
    show ?thesis
    proof (cases "verification_attempt_id obj \<noteq> None \<or> proctored_exam_attempt_id obj \<noteq> None")
      case True
      then show ?thesis
        using inv Some
        by (auto simp: update_verification_attempt_id_def objects_create_def Let_def one_attempt_id_def)
    next
      case False
      then have "one_attempt_id (obj\<lparr>verification_attempt_id := Some attempt_id\<rparr>)"
        by (simp add: one_attempt_id_def)
      from save_preserves[OF inv this] show ?thesis
        using Some False by (simp add: update_verification_attempt_id_def)
    qed
  qed
  have status_inv: "\<forall>r\<in>set (verified_names (fst (update_verified_name_status user_id st vid pid s))).
            one_attempt_id r"
  proof (cases "first (order_by_created_desc
                      (filter (\<lambda>r. user r = user_id \<and>
                                    (if vid \<noteq> None then verification_attempt_id r = vid
                                     else proctored_exam_attempt_id r = pid))
                              (verified_names s)))")
    case None
    show ?thesis
      unfolding update_verified_name_status_def None using inv by simp
  next
    case (Some obj)
    from first_order_by_filter_Some[OF Some] have "obj \<in> set (verified_names s)" by simp
    with inv have "one_attempt_id (obj\<lparr>status := st\<rparr>)" by (simp add: one_attempt_id_def)
    from save_preserves[OF inv this] show ?thesis
      unfolding update_verified_name_status_def Some using inv by simp
  qed
  from idv_inv proc_inv create_inv attach_inv status_inv idv_attach proc_new
  show ?thesis by blast
qed

theorem at_most_one_attempt_id_preserved_witness:
  "pk_unique (verified_names pending_store)
   \<and> \<not> (\<exists>r\<in>set (verified_names pending_store). \<not> one_attempt_id r)
   \<and> one_attempt_id (verified_names (fst (idv_update_verified_name_task 123 7 APPROVED ''Jonathan Doe'' ''Jon Doe'' pending_store)) ! 0)
   \<and> one_attempt_id (verified_names (fst (proctoring_update_verified_name_task 999 7 PENDING ''Jonathan Doe'' ''Jon Doe'' pending_store)) ! 2)"
proof -
  have u: "pk_unique (verified_names pending_store)"
    by (simp add: pk_unique_def pending_store_def unlinked_row_def proctored_row_def)
  have i: "\<forall>r\<in>set (verified_names pending_store). one_attempt_id r"
    by (simp add: one_attempt_id_def pending_store_def unlinked_row_def proctored_row_def)
  have l1: "length (verified_names (fst (idv_update_verified_name_task 123 7 APPROVED ''Jonathan Doe'' ''Jon Doe'' pending_store))) = 2"
    by (simp add: idv_update_verified_name_task_def pending_store_def unlinked_row_def proctored_row_def
        emit_def update_qs_def order_by_created_desc_def save_def Let_def)
  have l2: "length (verified_names (fst (proctoring_update_verified_name_task 999 7 PENDING ''Jonathan Doe'' ''Jon Doe'' pending_store))) = 3"
    by (simp add: proctoring_update_verified_name_task_def pending_store_def unlinked_row_def proctored_row_def
        emit_def objects_create_def order_by_created_desc_def first_def Let_def)
  from at_most_one_attempt_id_preserved[OF u i, of 123 7 APPROVED "''Jonathan Doe''" "''Jon Doe''"]
  have "\<forall>r\<in>set (verified_names (fst (idv_update_verified_name_task 123 7 APPROVED ''Jonathan Doe'' ''Jon Doe'' pending_store))). one_attempt_id r"
    by blast
  then have a: "one_attempt_id (verified_names (fst (idv_update_verified_name_task 123 7 APPROVED ''Jonathan Doe'' ''Jon Doe'' pending_store)) ! 0)"
    using l1 nth_mem[of 0 "verified_names (fst (idv_update_verified_name_task 123 7 APPROVED ''Jonathan Doe'' ''Jon Doe'' pending_store))"]
    by simp
  from at_most_one_attempt_id_preserved[OF u i, where attempt_id = 999 and user_id = 7 and st = PENDING
      and full_name = "''Jonathan Doe''" and pname = "''Jon Doe''"]
  have "\<forall>r\<in>set (verified_names (fst (proctoring_update_verified_name_task 999 7 PENDING ''Jonathan Doe'' ''Jon Doe'' pending_store))). one_attempt_id r"
    by blast
  then have b: "one_attempt_id (verified_names (fst (proctoring_update_verified_name_task 999 7 PENDING ''Jonathan Doe'' ''Jon Doe'' pending_store)) ! 2)"
    using l2 nth_mem[of 2 "verified_names (fst (proctoring_update_verified_name_task 999 7 PENDING ''Jonathan Doe'' ''Jon Doe'' pending_store))"]
    by simp
  from u i a b show ?thesis by blast
qed

section \<open>The API\<close>




text \<open>
  Claim C9. update_verification_attempt_id fails with DoesNotExist and leaves the state
  as it was when the user has no record; when the user's most recently created record has
  no attempt id it sets the verification attempt id of that record and the user's record
  count stays; when that record has an attempt id it appends a record copying the names
  and the status, with the new verification attempt id, and the count grows by one.
\<close>

theorem update_verification_attempt_id_cases:
  assumes "pk_unique (verified_names s)"
  shows "(filter (\<lambda>r. user r = u) (verified_names s) = [] \<longrightarrow>
            update_verification_attempt_id u attempt_id s = (s, Some VerifiedNameDoesNotExist))
       \<and> (\<forall>obj. get_verified_name u False s = Some obj
                 \<and> verification_attempt_id obj = None \<and> proctored_exam_attempt_id obj = None \<longrightarrow>
            snd (update_verification_attempt_id u attempt_id s) = None
            \<and> verified_names (fst (update_verification_attempt_id u attempt_id s))
                = map (\<lambda>r. if r = obj then r\<lparr>verification_attempt_id := Some attempt_id\<rparr> else r)
                      (verified_names s)
            \<and> length (filter (\<lambda>r. user r = u) (verified_names (fst (update_verification_attempt_id u attempt_id s))))
                = length (filter (\<lambda>r. user r = u) (verified_names s)))
       \<and> (\<forall>obj. get_verified_name u False s = Some obj
                 \<and> (verification_attempt_id obj \<noteq> None \<or> proctored_exam_attempt_id obj \<noteq> None) \<longrightarrow>
            snd (update_verification_attempt_id u attempt_id s) = None
            \<and> verified_names (fst (update_verification_attempt_id u attempt_id s))
                = verified_names s @
                  [\<lparr>id_pk = next_id s, user = u, verified_name = verified_name obj,
                    profile_name = profile_name obj, verification_attempt_id = Some attempt_id,
                    proctored_exam_attempt_id = None, status = status obj, created = now s\<rparr>]
            \<and> length (filter (\<lambda>r. user r = u) (verified_names (fst (update_verification_attempt_id u attempt_id s))))
                = Suc (length (filter (\<lambda>r. user r = u) (verified_names s))))"
proof (intro conjI allI impI)
  assume "filter (\<lambda>r. user r = u) (verified_names s) = []"
  then have "get_verified_name u False s = None" by (simp add: get_verified_name_None)
  then show "update_verification_attempt_id u attempt_id s = (s, Some VerifiedNameDoesNotExist)"
    by (simp add: update_verification_attempt_id_def)
next
  fix obj
  assume a: "get_verified_name u False s = Some obj
                 \<and> verification_attempt_id obj = None \<and> proctored_exam_attempt_id obj = None"
  then have g: "get_verified_name u False s = Some obj" by simp
  note props = get_verified_name_Some[OF g]
  show "snd (update_verification_attempt_id u attempt_id s) = None"
    using a by (simp add: update_verification_attempt_id_def)
  have "save (obj\<lparr>verification_attempt_id := Some attempt_id\<rparr>) (verified_names s)
        = map (\<lambda>r. if r = obj then obj\<lparr>verification_attempt_id := Some attempt_id\<rparr> else r) (verified_names s)"
    using save_existing[OF assms, of obj "obj\<lparr>verification_attempt_id := Some attempt_id\<rparr>"] props by simp
  also have "\<dots> = map (\<lambda>r. if r = obj then r\<lparr>verification_attempt_id := Some attempt_id\<rparr> else r) (verified_names s)"
    by (rule map_cong[OF refl]) simp
  finally have rows: "verified_names (fst (update_verification_attempt_id u attempt_id s))
        = map (\<lambda>r. if r = obj then r\<lparr>verification_attempt_id := Some attempt_id\<rparr> else r) (verified_names s)"
    using a by (simp add: update_verification_attempt_id_def)
  then show "verified_names (fst (update_verification_attempt_id u attempt_id s))
        = map (\<lambda>r. if r = obj then r\<lparr>verification_attempt_id := Some attempt_id\<rparr> else r) (verified_names s)" .
  have "filter (\<lambda>r. user r = u) (map (\<lambda>r. if r = obj then r\<lparr>verification_attempt_id := Some attempt_id\<rparr> else r) (verified_names s))
        = map (\<lambda>r. if r = obj then r\<lparr>verification_attempt_id := Some attempt_id\<rparr> else r) (filter (\<lambda>r. user r = u) (verified_names s))"
    unfolding filter_map by (rule arg_cong[where f="map _"]) (rule filter_cong[OF refl], simp add: comp_def)
  then show "length (filter (\<lambda>r. user r = u) (verified_names (fst (update_verification_attempt_id u attempt_id s))))
                = length (filter (\<lambda>r. user r = u) (verified_names s))"
    unfolding rows by simp
next
  fix obj
  assume a: "get_verified_name u False s = Some obj
                 \<and> (verification_attempt_id obj \<noteq> None \<or> proctored_exam_attempt_id obj \<noteq> None)"
  then have res: "update_verification_attempt_id u attempt_id s
      = (snd (objects_create u (verified_name obj) (profile_name obj) (Some attempt_id) None (status obj) s), None)"
    by (auto simp: update_verification_attempt_id_def)
  show "snd (update_verification_attempt_id u attempt_id s) = None"
    unfolding res by simp
  show "verified_names (fst (update_verification_attempt_id u attempt_id s))
                = verified_names s @
                  [\<lparr>id_pk = next_id s, user = u, verified_name = verified_name obj,
                    profile_name = profile_name obj, verification_attempt_id = Some attempt_id,
                    proctored_exam_attempt_id = None, status = status obj, created = now s\<rparr>]"
    unfolding res by (simp add: objects_create_def Let_def)
  show "length (filter (\<lambda>r. user r = u) (verified_names (fst (update_verification_attempt_id u attempt_id s))))
                = Suc (length (filter (\<lambda>r. user r = u) (verified_names s)))"
    unfolding res by (simp add: objects_create_def Let_def)
qed

theorem update_verification_attempt_id_cases_witness:
  "pk_unique (verified_names unlinked_store)
   \<and> get_verified_name 7 False unlinked_store = Some unlinked_row_later
   \<and> get_verified_name 7 False pending_store = Some proctored_row
   \<and> update_verification_attempt_id 7 123 empty_store = (empty_store, Some VerifiedNameDoesNotExist)
   \<and> verified_names (fst (update_verification_attempt_id 7 123 unlinked_store))
       = [unlinked_row, unlinked_row_later\<lparr>verification_attempt_id := Some 123\<rparr>]
   \<and> verified_names (fst (update_verification_attempt_id 7 789 pending_store))
       = [unlinked_row, proctored_row,
          \<lparr>id_pk = 3, user = 7, verified_name = ''Jonathan Doe'', profile_name = ''Jon Doe'',
            verification_attempt_id = Some 789, proctored_exam_attempt_id = None,
            status = SUBMITTED, created = 20\<rparr>]"
proof -
  have u0: "pk_unique (verified_names empty_store)"
    by (simp add: pk_unique_def empty_store_def)
  have u1: "pk_unique (verified_names unlinked_store)"
    by (simp add: pk_unique_def unlinked_store_def unlinked_row_def unlinked_row_later_def)
  have u2: "pk_unique (verified_names pending_store)"
    by (simp add: pk_unique_def pending_store_def unlinked_row_def proctored_row_def)
  have g1: "get_verified_name 7 False unlinked_store = Some unlinked_row_later"
    by (simp add: get_verified_name_def order_by_created_desc_def first_def unlinked_store_def
        unlinked_row_def unlinked_row_later_def)
  have g2: "get_verified_name 7 False pending_store = Some proctored_row"
    by (simp add: get_verified_name_def order_by_created_desc_def first_def pending_store_def
        unlinked_row_def proctored_row_def)
  have none: "update_verification_attempt_id 7 123 empty_store = (empty_store, Some VerifiedNameDoesNotExist)"
    using update_verification_attempt_id_cases[OF u0, of 7 123]
    by (simp add: empty_store_def)
  have inplace: "verified_names (fst (update_verification_attempt_id 7 123 unlinked_store))
       = [unlinked_row, unlinked_row_later\<lparr>verification_attempt_id := Some 123\<rparr>]"
    using update_verification_attempt_id_cases[OF u1, of 7 123] g1
    by (simp add: unlinked_store_def unlinked_row_def unlinked_row_later_def)
  have created: "verified_names (fst (update_verification_attempt_id 7 789 pending_store))
       = [unlinked_row, proctored_row,
          \<lparr>id_pk = 3, user = 7, verified_name = ''Jonathan Doe'', profile_name = ''Jon Doe'',
            verification_attempt_id = Some 789, proctored_exam_attempt_id = None,
            status = SUBMITTED, created = 20\<rparr>]"
    using update_verification_attempt_id_cases[OF u2, of 7 789] g2
    by (simp add: pending_store_def unlinked_row_def proctored_row_def)
  from u1 g1 g2 none inplace created show ?thesis by blast
qed

end
